theory Spec2Isabelle
  imports Complex_Main "HOL-Library.Word" "HOL-Library.Char_ord" "HOL-Library.List_Lexorder"
begin

section \<open>The SDK's decryption core (core/decryption.ts)\<close>

text \<open>
  Addresses and handles are hex strings. A clear value returned by the relay is a string,
  a bigint or a boolean; the relay's answer is a JavaScript object from handles to clear
  values, modelled as a map.
\<close>

type_synonym address = string

datatype cleartext = ClearString string | ClearBigInt int | ClearBool bool

type_synonym cleartexts = "string \<rightharpoonup> cleartext"

text \<open>
  A value caught by a \<^verbatim>\<open>catch\<close>: an object that may carry a \<^verbatim>\<open>name\<close> and a
  \<^verbatim>\<open>message\<close>, or a value that is no object.
\<close>

datatype js_error = ErrorObject "string option" "string option" | NonObject

fun err_name :: "js_error \<Rightarrow> string option" where
  "err_name (ErrorObject n m) = n"
| "err_name NonObject = None"

fun err_message :: "js_error \<Rightarrow> string option" where
  "err_message (ErrorObject n m) = m"
| "err_message NonObject = None"

record UserDecryptSignature =
  privateKey :: string
  publicKey :: string
  signature :: string
  contractAddresses :: "address list"
  userAddress :: address
  startTimestamp :: int
  durationDays :: int

record DecryptRequest =
  handle :: string
  contractAddress :: address

text \<open>
  The instance is the relayer SDK's object. Its two decryption methods reach the remote
  relay: each call is recorded, with its arguments in the order they were passed, in the
  trace of the network, and is answered by the relay (a rejected promise is \<open>Inl\<close>).
\<close>

datatype relay_call =
    UserDecryptCall "DecryptRequest list" string string string "address list" address int int
  | PublicDecryptCall "DecryptRequest list"

record network =
  calls :: "relay_call list"

record FhevmInstance =
  relay_userDecrypt :: "DecryptRequest list \<Rightarrow> string \<Rightarrow> string \<Rightarrow> string \<Rightarrow> address list
     \<Rightarrow> address \<Rightarrow> int \<Rightarrow> int \<Rightarrow> js_error + cleartexts"
  relay_publicDecrypt :: "DecryptRequest list \<Rightarrow> js_error + cleartexts"

definition instance_userDecrypt ::
  "FhevmInstance \<Rightarrow> DecryptRequest list \<Rightarrow> string \<Rightarrow> string \<Rightarrow> string \<Rightarrow> address list
     \<Rightarrow> address \<Rightarrow> int \<Rightarrow> int \<Rightarrow> network \<Rightarrow> (js_error + cleartexts) \<times> network" where
  "instance_userDecrypt inst reqs priv pub sg addrs user start days net =
     (relay_userDecrypt inst reqs priv pub sg addrs user start days,
      net\<lparr>calls := calls net @ [UserDecryptCall reqs priv pub sg addrs user start days]\<rparr>)"

definition instance_publicDecrypt ::
  "FhevmInstance \<Rightarrow> DecryptRequest list \<Rightarrow> network \<Rightarrow> (js_error + cleartexts) \<times> network" where
  "instance_publicDecrypt inst reqs net =
     (relay_publicDecrypt inst reqs, net\<lparr>calls := calls net @ [PublicDecryptCall reqs]\<rparr>)"

text \<open>
  \<^verbatim>\<open>userDecryptWithSignature(instance, requests, sig)\<close>: copies every request into a
  fresh object and passes the copies and the seven fields of the signature to the
  instance's \<^verbatim>\<open>userDecrypt\<close>. There is no other statement in its body.
\<close>

definition userDecryptWithSignature ::
  "FhevmInstance \<Rightarrow> DecryptRequest list \<Rightarrow> UserDecryptSignature \<Rightarrow> network
     \<Rightarrow> (js_error + cleartexts) \<times> network" where
  "userDecryptWithSignature inst requests sig net =
     (let mutableReqs = map (\<lambda>r. \<lparr>handle = handle r, contractAddress = contractAddress r\<rparr>) requests
      in instance_userDecrypt inst mutableReqs (privateKey sig) (publicKey sig) (signature sig)
           (contractAddresses sig) (userAddress sig) (startTimestamp sig) (durationDays sig) net)"

text \<open>\<^verbatim>\<open>publicDecrypt(instance, requests)\<close>: copies the requests and passes them on.\<close>

definition publicDecrypt ::
  "FhevmInstance \<Rightarrow> DecryptRequest list \<Rightarrow> network \<Rightarrow> (js_error + cleartexts) \<times> network" where
  "publicDecrypt inst requests net =
     (let mutableReqs = map (\<lambda>r. \<lparr>handle = handle r, contractAddress = contractAddress r\<rparr>) requests
      in instance_publicDecrypt inst mutableReqs net)"

text \<open>A call fails with the error named \<open>nm\<close> when its promise is rejected with it.\<close>

definition fails_with :: "string \<Rightarrow> js_error + 'a \<Rightarrow> bool" where
  "fails_with nm r = (case r of Inl e \<Rightarrow> err_name e = Some nm | Inr v \<Rightarrow> False)"

subsection \<open>Concrete inputs\<close>

definition req_aa :: DecryptRequest where
  "req_aa = \<lparr>handle = ''0x01'', contractAddress = ''0xaa''\<rparr>"

definition req_cc :: DecryptRequest where
  "req_cc = \<lparr>handle = ''0x02'', contractAddress = ''0xcc''\<rparr>"

definition sig_aa :: UserDecryptSignature where
  "sig_aa = \<lparr>privateKey = ''priv'', publicKey = ''pub'', signature = ''0xsig'',
     contractAddresses = [''0xaa''], userAddress = ''0xbb'', startTimestamp = 1000,
     durationDays = 365\<rparr>"

definition clear_all :: "DecryptRequest list \<Rightarrow> cleartexts" where
  "clear_all reqs = map_of (map (\<lambda>r. (handle r, ClearBool True)) reqs)"

text \<open>A relay that answers every request: it decrypts each handle to \<open>true\<close>.\<close>

definition open_instance :: FhevmInstance where
  "open_instance = \<lparr>relay_userDecrypt = (\<lambda>reqs priv pub sg addrs user start days. Inr (clear_all reqs)),
     relay_publicDecrypt = (\<lambda>reqs. Inr (clear_all reqs))\<rparr>"

definition net0 :: network where
  "net0 = \<lparr>calls = []\<rparr>"

section \<open>The decrypt button (the component FHEDecryptButton)\<close>

text \<open>
  \<^verbatim>\<open>Array.from(new Set(xs))\<close>: a JavaScript \<^verbatim>\<open>Set\<close> keeps its elements in the order
  of their first insertion, and adding an element it already holds changes nothing.
\<close>

definition set_add :: "'a list \<Rightarrow> 'a \<Rightarrow> 'a list" where
  "set_add elems x = (if x \<in> set elems then elems else elems @ [x])"

definition array_from_new_Set :: "'a list \<Rightarrow> 'a list" where
  "array_from_new_Set xs = foldl set_add [] xs"

text \<open>
  The component's state and the effects of a click: the three React state cells, the
  contract-address lists passed to \<^verbatim>\<open>loadOrSign\<close>, the signature storage, the network,
  and the results handed to the \<^verbatim>\<open>onResults\<close> callback.
\<close>

record 'st button_world =
  isDecrypting :: bool
  message :: string
  error :: "string option"
  sign_requests :: "address list list"
  storage :: 'st
  relay_net :: network
  delivered :: "cleartexts list"

text \<open>
  The properties of the component. The source of \<^verbatim>\<open>FhevmDecryptionSignature.loadOrSign\<close>
  is missing, so the flow takes it as the parameter \<open>los\<close>: it is given the
  instance, the contract addresses, the signer and the storage, and it returns a
  signature or \<^verbatim>\<open>null\<close>, or throws. \<open>onResults\<close> is optional and may throw.
\<close>

record 'sg button_props =
  p_instance :: "FhevmInstance option"
  p_signer :: "'sg option"
  p_requests :: "DecryptRequest list option"
  p_onResults :: "(cleartexts \<Rightarrow> js_error option) option"

type_synonym ('sg, 'st) load_or_sign =
  "FhevmInstance \<Rightarrow> address list \<Rightarrow> 'sg \<Rightarrow> 'st \<Rightarrow> (js_error + UserDecryptSignature option) \<times> 'st"

text \<open>The \<^verbatim>\<open>catch\<close> block, and the \<^verbatim>\<open>finally\<close> block.\<close>

definition on_catch :: "js_error \<Rightarrow> 'st button_world \<Rightarrow> 'st button_world" where
  "on_catch e w =
     (let code = (case err_name e of Some n \<Rightarrow> n | None \<Rightarrow> ''DECRYPT_ERROR'');
          msg = (case err_message e of Some m \<Rightarrow> m | None \<Rightarrow> ''Decryption failed'')
      in w\<lparr>error := Some (code @ '': '' @ msg), message := ''FHEVM userDecrypt failed''\<rparr>)"

definition on_finally :: "'st button_world \<Rightarrow> 'st button_world" where
  "on_finally w = w\<lparr>isDecrypting := False\<rparr>"

text \<open>The body of the \<^verbatim>\<open>try\<close> block after the signature has been obtained.\<close>

definition decrypt_with ::
  "'sg button_props \<Rightarrow> FhevmInstance \<Rightarrow> DecryptRequest list \<Rightarrow> UserDecryptSignature
     \<Rightarrow> 'st button_world \<Rightarrow> 'st button_world" where
  "decrypt_with p inst requests sig w =
     (let w1 = w\<lparr>message := ''Call FHEVM userDecrypt...''\<rparr>;
          (res, net') = userDecryptWithSignature inst requests
             \<lparr>privateKey = privateKey sig, publicKey = publicKey sig, signature = signature sig,
              contractAddresses = contractAddresses sig, userAddress = userAddress sig,
              startTimestamp = startTimestamp sig, durationDays = durationDays sig\<rparr> (relay_net w1);
          w2 = w1\<lparr>relay_net := net'\<rparr>
      in case res of
           Inl e \<Rightarrow> on_catch e w2
         | Inr r \<Rightarrow>
            (case p_onResults p of
               None \<Rightarrow> w2\<lparr>message := ''FHEVM userDecrypt completed!''\<rparr>
             | Some cb \<Rightarrow>
                (let w3 = w2\<lparr>delivered := delivered w2 @ [r]\<rparr>
                 in case cb r of
                      Some e \<Rightarrow> on_catch e w3
                    | None \<Rightarrow> w3\<lparr>message := ''FHEVM userDecrypt completed!''\<rparr>)))"

text \<open>The click handler.\<close>

definition onClick ::
  "('sg, 'st) load_or_sign \<Rightarrow> 'sg button_props \<Rightarrow> 'st button_world \<Rightarrow> 'st button_world" where
  "onClick los p w =
     (case (p_instance p, p_signer p, p_requests p) of
        (Some inst, Some signer, Some requests) \<Rightarrow>
          if requests = [] then w
          else
            (let w1 = w\<lparr>isDecrypting := True, message := ''Start decrypt'', error := None\<rparr>;
                 uniqueAddresses = array_from_new_Set (map contractAddress requests);
                 (got, st') = los inst uniqueAddresses signer (storage w1);
                 w2 = w1\<lparr>sign_requests := sign_requests w1 @ [uniqueAddresses], storage := st'\<rparr>
             in on_finally
                  (case got of
                     Inl e \<Rightarrow> on_catch e w2
                   | Inr None \<Rightarrow>
                       w2\<lparr>message := ''Unable to build FHEVM decryption signature'',
                          error := Some ''SIGNATURE_ERROR: Failed to create decryption signature''\<rparr>
                   | Inr (Some sig) \<Rightarrow> decrypt_with p inst requests sig w2))
      | _ \<Rightarrow> w)"

text \<open>Concrete inputs: a \<^verbatim>\<open>loadOrSign\<close> that signs for whatever addresses it is given.\<close>

definition sign_any :: "(unit, unit) load_or_sign" where
  "sign_any inst addrs signer st =
     (Inr (Some \<lparr>privateKey = ''priv'', publicKey = ''pub'', signature = ''0xsig'',
        contractAddresses = addrs, userAddress = ''0xbb'', startTimestamp = 1000,
        durationDays = 365\<rparr>), st)"

definition props0 :: "unit button_props" where
  "props0 = \<lparr>p_instance = Some open_instance, p_signer = Some (),
     p_requests = Some [req_cc, req_aa, req_cc], p_onResults = None\<rparr>"

definition world0 :: "unit button_world" where
  "world0 = \<lparr>isDecrypting = False, message = [], error = None, sign_requests = [],
     storage = (), relay_net = net0, delivered = []\<rparr>"

section \<open>The ABI-driven encrypt button (react/components/FHEEncryptWithAbi.tsx)\<close>

text \<open>
  An element of \<^verbatim>\<open>values\<close> is a number, a string or a boolean. A JavaScript string is a
  sequence of 16-bit code units; \<open>code_units\<close> gives the code units of an ASCII literal.
  A JavaScript number is a double: a finite value (a rational), a NaN or an infinity.
\<close>

type_synonym js_string = "16 word list"

definition code_units :: "string \<Rightarrow> js_string" where
  "code_units s = map (\<lambda>c. of_nat (of_char c)) s"

datatype js_number = Finite rat | NaN | PosInfinity | NegInfinity

datatype js_value = JBoolean bool | JString js_string | JNumber js_number

datatype conversion_error = SyntaxError | RangeError

text \<open>
  \<^verbatim>\<open>BigInt(v)\<close> is the language's conversion. Of a number it throws a
  \<^verbatim>\<open>RangeError\<close> unless the number is integral.
\<close>

definition NumberToBigInt :: "js_number \<Rightarrow> conversion_error + int" where
  "NumberToBigInt x =
     (case x of
        Finite q \<Rightarrow> if q = of_int \<lfloor>q\<rfloor> then Inr \<lfloor>q\<rfloor> else Inl RangeError
      | _ \<Rightarrow> Inl RangeError)"

text \<open>
  Of a string, \<^verbatim>\<open>BigInt\<close> throws a \<^verbatim>\<open>SyntaxError\<close> unless the string, with white
  space trimmed at both ends, is empty (then the value is 0), a decimal integer with an
  optional sign, or an unsigned hexadecimal, octal or binary literal with its prefix. The
  white space is the language's \<^verbatim>\<open>StrWhiteSpaceChar\<close>: the tab, the vertical tab, the
  form feed, U+FEFF, the space separators of Unicode (U+0020, U+00A0, U+1680, U+2000 to
  U+200A, U+202F, U+205F, U+3000) and the line terminators (the line feed, the carriage
  return, U+2028, U+2029).
\<close>

definition is_StrWhiteSpaceChar :: "16 word \<Rightarrow> bool" where
  "is_StrWhiteSpaceChar c =
     (c \<in> {0x0009, 0x000B, 0x000C, 0xFEFF,
            0x0020, 0x00A0, 0x1680, 0x202F, 0x205F, 0x3000,
            0x000A, 0x000D, 0x2028, 0x2029}
      \<or> (0x2000 \<le> c \<and> c \<le> 0x200A))"

definition trim :: "js_string \<Rightarrow> js_string" where
  "trim s = rev (dropWhile is_StrWhiteSpaceChar (rev (dropWhile is_StrWhiteSpaceChar s)))"

definition digit_of :: "16 word \<Rightarrow> nat option" where
  "digit_of c =
     (let n = unat c
      in if 48 \<le> n \<and> n \<le> 57 then Some (n - 48)
         else if 97 \<le> n \<and> n \<le> 102 then Some (n - 87)
         else if 65 \<le> n \<and> n \<le> 70 then Some (n - 55)
         else None)"

fun digits_value :: "nat \<Rightarrow> nat \<Rightarrow> js_string \<Rightarrow> nat option" where
  "digits_value base acc [] = Some acc"
| "digits_value base acc (c # cs) =
     (case digit_of c of
        None \<Rightarrow> None
      | Some d \<Rightarrow> if d < base then digits_value base (acc * base + d) cs else None)"

definition parse_digits :: "nat \<Rightarrow> js_string \<Rightarrow> nat option" where
  "parse_digits base cs = (if cs = [] then None else digits_value base 0 cs)"

definition StringToBigInt :: "js_string \<Rightarrow> int option" where
  "StringToBigInt s =
     (let t = trim s
      in if t = [] then Some 0
         else if take 2 t = [0x30, 0x78] \<or> take 2 t = [0x30, 0x58] then map_option int (parse_digits 16 (drop 2 t))
         else if take 2 t = [0x30, 0x6F] \<or> take 2 t = [0x30, 0x4F] then map_option int (parse_digits 8 (drop 2 t))
         else if take 2 t = [0x30, 0x62] \<or> take 2 t = [0x30, 0x42] then map_option int (parse_digits 2 (drop 2 t))
         else if hd t = 0x2D then map_option (\<lambda>n. - int n) (parse_digits 10 (tl t))
         else if hd t = 0x2B then map_option int (parse_digits 10 (tl t))
         else map_option int (parse_digits 10 t))"

definition BigInt_of_string :: "js_string \<Rightarrow> conversion_error + int" where
  "BigInt_of_string s = (case StringToBigInt s of None \<Rightarrow> Inl SyntaxError | Some n \<Rightarrow> Inr n)"

text \<open>
  The builder is the relayer SDK's object, created by the instance. The loop calls two of
  its methods; each call is recorded, then the builder, whose state is of some type \<open>'b\<close>,
  takes the value or throws an error of some type \<open>'e\<close>.
\<close>

datatype add_call = AddBool bool | Add64 int

record ('b, 'e) builder_methods =
  addBool :: "bool \<Rightarrow> 'b \<Rightarrow> 'e + 'b"
  add64 :: "int \<Rightarrow> 'b \<Rightarrow> 'e + 'b"

record 'b build_state =
  builder :: 'b
  add_calls :: "add_call list"

datatype 'e build_error = ConversionError conversion_error | BuilderError 'e

text \<open>
  One iteration's choice of method: \<^verbatim>\<open>addBool(v)\<close> for a boolean,
  \<^verbatim>\<open>add64(BigInt(v))\<close> for a string and for a number; the conversion comes first and
  may throw. An element converts when its conversion does not throw.
\<close>

fun call_for :: "js_value \<Rightarrow> conversion_error + add_call" where
  "call_for (JBoolean b) = Inr (AddBool b)"
| "call_for (JString s) = (case BigInt_of_string s of Inl e \<Rightarrow> Inl e | Inr n \<Rightarrow> Inr (Add64 n))"
| "call_for (JNumber x) = (case NumberToBigInt x of Inl e \<Rightarrow> Inl e | Inr n \<Rightarrow> Inr (Add64 n))"

definition converts :: "js_value \<Rightarrow> bool" where
  "converts v = (case call_for v of Inl e \<Rightarrow> False | Inr c \<Rightarrow> True)"

fun invoke :: "('b, 'e) builder_methods \<Rightarrow> add_call \<Rightarrow> 'b \<Rightarrow> 'e + 'b" where
  "invoke ms (AddBool b) st = addBool ms b st"
| "invoke ms (Add64 n) st = add64 ms n st"

text \<open>
  The callback passed to \<^verbatim>\<open>createEncryptedInputAndEncrypt\<close>:
  \<^verbatim>\<open>for (const v of values) { ... }\<close>. It returns the error thrown, if any, and the
  builder with the calls made on it.
\<close>

fun buildFn :: "('b, 'e) builder_methods \<Rightarrow> js_value list \<Rightarrow> 'b build_state
    \<Rightarrow> 'e build_error option \<times> 'b build_state" where
  "buildFn ms [] st = (None, st)"
| "buildFn ms (v # vs) st =
     (case call_for v of
        Inl e \<Rightarrow> (Some (ConversionError e), st)
      | Inr c \<Rightarrow>
         (let st1 = st\<lparr>add_calls := add_calls st @ [c]\<rparr>
          in case invoke ms c (builder st) of
               Inl e \<Rightarrow> (Some (BuilderError e), st1)
             | Inr b' \<Rightarrow> buildFn ms vs (st1\<lparr>builder := b'\<rparr>)))"

text \<open>
  Concrete inputs: a builder that takes every value and counts them; a list whose fourth
  element does not convert and whose second starts with a no-break space; and the values
  \<^verbatim>\<open>true\<close>, \<^verbatim>\<open>5\<close> and \<^verbatim>\<open>"1000000"\<close>.
\<close>

definition counting_builder :: "(nat, unit) builder_methods" where
  "counting_builder = \<lparr>addBool = (\<lambda>b n. Inr (Suc n)), add64 = (\<lambda>v n. Inr (Suc n))\<rparr>"

definition fresh_build :: "nat build_state" where
  "fresh_build = \<lparr>builder = 0, add_calls = []\<rparr>"

definition mixed_values :: "js_value list" where
  "mixed_values = [JBoolean True, JString [0x00A0, 0x35], JNumber (Finite 7),
     JString (code_units ''abc''), JBoolean False]"

definition scenario_values :: "js_value list" where
  "scenario_values = [JBoolean True, JNumber (Finite 5), JString (code_units ''1000000'')]"

lemmas bigint_defs = BigInt_of_string_def StringToBigInt_def trim_def is_StrWhiteSpaceChar_def
  parse_digits_def digit_of_def NumberToBigInt_def code_units_def

section \<open>The contract PRSCompute (custom-contracts/PRSCompute.sol)\<close>

text \<open>
  Solidity's unsigned integers are words; an address is a 160-bit word. A ciphertext
  (\<^verbatim>\<open>euint32\<close>, \<^verbatim>\<open>ebool\<close>) is modelled by the value it encrypts, and the operations of
  the \<^verbatim>\<open>FHE\<close> library by the operations they perform on the encrypted values: 32-bit
  multiplication and addition, which wrap around, and the unsigned comparison. A handle
  that was never set encrypts zero. \<^verbatim>\<open>FHE.fromExternal\<close> checks the input proof with the
  coprocessor, outside the contract: it is a field of the call's context, and \<open>None\<close> is
  its revert. \<^verbatim>\<open>FHE.allow\<close> and \<^verbatim>\<open>FHE.allowThis\<close> append to the access-control list.
\<close>

type_synonym uint32 = "32 word"
type_synonym uint256 = "256 word"
type_synonym bytes32 = "256 word"
type_synonym eth_address = "160 word"

type_synonym euint32 = "32 word"
type_synonym ebool = bool
type_synonym externalEuint32 = "256 word"

definition FHE_asEuint32 :: "uint32 \<Rightarrow> euint32" where
  "FHE_asEuint32 x = x"

definition FHE_mul :: "euint32 \<Rightarrow> euint32 \<Rightarrow> euint32" where
  "FHE_mul a b = a * b"

definition FHE_add :: "euint32 \<Rightarrow> euint32 \<Rightarrow> euint32" where
  "FHE_add a b = a + b"

definition FHE_gt :: "euint32 \<Rightarrow> euint32 \<Rightarrow> ebool" where
  "FHE_gt a b = (b < a)"

definition NUM_SNPS :: uint256 where
  "NUM_SNPS = 20"

definition RISK_THRESHOLD :: uint32 where
  "RISK_THRESHOLD = 50"

record EncryptedGenotype =
  snps :: "euint32 list"
  owner :: eth_address
  timestamp :: uint256
  riskComputed :: bool
  prsScore :: euint32
  isHighRisk :: ebool

datatype fhe_handle = HandleUint32 euint32 | HandleBool ebool

datatype event =
    GenotypeUploaded bytes32 eth_address uint256
  | RiskComputed bytes32 eth_address uint256
  | PRSComputed bytes32 uint256 uint32
  | EffectSizeUpdated uint256 uint32

record contract_state =
  effectSizes :: "uint32 list"
  genotypeData :: "bytes32 \<Rightarrow> EncryptedGenotype"
  acl :: "(fhe_handle \<times> eth_address) list"
  events :: "event list"

record call_context =
  msg_sender :: eth_address
  block_timestamp :: uint256
  this_address :: eth_address
  FHE_fromExternal :: "externalEuint32 \<Rightarrow> 8 word list \<Rightarrow> euint32 option"

text \<open>The state after deployment: a mapping holds the zero value at every key.\<close>

definition initial_effectSizes :: "uint32 list" where
  "initial_effectSizes = [3, 2, 4, 2, 3, 2, 3, 2, 4, 2, 3, 2, 3, 2, 4, 2, 3, 2, 3, 2]"

definition zero_genotype :: EncryptedGenotype where
  "zero_genotype = \<lparr>snps = replicate 20 0, owner = 0, timestamp = 0, riskComputed = False,
     prsScore = 0, isHighRisk = False\<rparr>"

definition deployed :: contract_state where
  "deployed = \<lparr>effectSizes = initial_effectSizes, genotypeData = (\<lambda>i. zero_genotype),
     acl = [], events = []\<rparr>"

text \<open>
  The loop of \<^verbatim>\<open>uploadEncryptedGenotype\<close>, from index \<open>i\<close> on; and the function, which
  reverts (\<open>Inl\<close> with the reason) or returns the new state.
\<close>

function upload_loop :: "call_context \<Rightarrow> externalEuint32 list \<Rightarrow> 8 word list \<Rightarrow> uint256
    \<Rightarrow> EncryptedGenotype \<times> (fhe_handle \<times> eth_address) list
    \<Rightarrow> (EncryptedGenotype \<times> (fhe_handle \<times> eth_address) list) option" where
  "upload_loop ctx encryptedSnps inputProof i (genotype, grants) =
     (if i < NUM_SNPS then
        (case FHE_fromExternal ctx (encryptedSnps ! unat i) inputProof of
           None \<Rightarrow> None
         | Some c \<Rightarrow>
             upload_loop ctx encryptedSnps inputProof (i + 1)
               (genotype\<lparr>snps := (snps genotype)[unat i := c]\<rparr>,
                grants @ [(HandleUint32 c, this_address ctx), (HandleUint32 c, msg_sender ctx)]))
      else Some (genotype, grants))"
  by pat_completeness auto
termination
  by (relation "measure (\<lambda>(ctx, es, pr, i, st). unat NUM_SNPS - unat i)")
    (auto simp: NUM_SNPS_def word_less_nat_alt unat_word_ariths)

definition uploadEncryptedGenotype ::
  "call_context \<Rightarrow> bytes32 \<Rightarrow> externalEuint32 list \<Rightarrow> 8 word list \<Rightarrow> contract_state
     \<Rightarrow> string + contract_state" where
  "uploadEncryptedGenotype ctx individualId encryptedSnps inputProof s =
     (if length encryptedSnps \<noteq> unat NUM_SNPS then Inl ''Invalid number of SNPs''
      else if owner (genotypeData s individualId) \<noteq> 0 then Inl ''Individual already exists''
      else
        (let genotype = (genotypeData s individualId)
               \<lparr>owner := msg_sender ctx, timestamp := block_timestamp ctx, riskComputed := False\<rparr>
         in case upload_loop ctx encryptedSnps inputProof 0 (genotype, acl s) of
              None \<Rightarrow> Inl ''''
            | Some (genotype', grants) \<Rightarrow>
                Inr (s\<lparr>genotypeData := (genotypeData s)(individualId := genotype'),
                       acl := grants,
                       events := events s @
                         [GenotypeUploaded individualId (msg_sender ctx) (block_timestamp ctx)]\<rparr>)))"

text \<open>
  The loop of \<^verbatim>\<open>computePRS\<close>, from index \<open>i\<close> on, with the accumulator
  \<^verbatim>\<open>encryptedPRS\<close>; and the function.
\<close>

function prs_loop :: "euint32 list \<Rightarrow> uint32 list \<Rightarrow> uint256 \<Rightarrow> euint32 \<Rightarrow> euint32" where
  "prs_loop gsnps sizes i encryptedPRS =
     (if i < NUM_SNPS then
        (let weighted = FHE_mul (gsnps ! unat i) (FHE_asEuint32 (sizes ! unat i))
         in prs_loop gsnps sizes (i + 1) (FHE_add encryptedPRS weighted))
      else encryptedPRS)"
  by pat_completeness auto
termination
  by (relation "measure (\<lambda>(g, es, i, acc). unat NUM_SNPS - unat i)")
    (auto simp: NUM_SNPS_def word_less_nat_alt unat_word_ariths)

definition computePRS :: "call_context \<Rightarrow> bytes32 \<Rightarrow> contract_state \<Rightarrow> string + contract_state" where
  "computePRS ctx individualId s =
     (if owner (genotypeData s individualId) = 0 then Inl ''Individual not found''
      else if riskComputed (genotypeData s individualId) then Inl ''Risk already computed''
      else
        (let genotype = genotypeData s individualId;
             encryptedPRS = prs_loop (snps genotype) (effectSizes s) 0 (FHE_asEuint32 0);
             genotype' = genotype\<lparr>prsScore := encryptedPRS,
               isHighRisk := FHE_gt encryptedPRS (FHE_asEuint32 RISK_THRESHOLD),
               riskComputed := True\<rparr>
         in Inr (s\<lparr>genotypeData := (genotypeData s)(individualId := genotype'),
                  acl := acl s @
                    [(HandleBool (isHighRisk genotype'), this_address ctx),
                     (HandleBool (isHighRisk genotype'), msg_sender ctx),
                     (HandleBool (isHighRisk genotype'), owner genotype'),
                     (HandleUint32 (prsScore genotype'), this_address ctx),
                     (HandleUint32 (prsScore genotype'), msg_sender ctx),
                     (HandleUint32 (prsScore genotype'), owner genotype')],
                  events := events s @
                    [RiskComputed individualId (msg_sender ctx) (block_timestamp ctx),
                     PRSComputed individualId NUM_SNPS RISK_THRESHOLD]\<rparr>)))"

definition updateEffectSize :: "call_context \<Rightarrow> uint256 \<Rightarrow> uint32 \<Rightarrow> contract_state
    \<Rightarrow> string + contract_state" where
  "updateEffectSize ctx snpIndex newValue s =
     (if \<not> snpIndex < NUM_SNPS then Inl ''Invalid SNP index''
      else Inr (s\<lparr>effectSizes := (effectSizes s)[unat snpIndex := newValue],
                 events := events s @ [EffectSizeUpdated snpIndex newValue]\<rparr>))"

text \<open>
  The state-changing functions of the contract as transactions: a transaction that reverts
  leaves the state as it was.
\<close>

datatype transaction =
    UploadEncryptedGenotype call_context bytes32 "externalEuint32 list" "8 word list"
  | ComputePRS call_context bytes32
  | UpdateEffectSize call_context uint256 uint32

fun call :: "transaction \<Rightarrow> contract_state \<Rightarrow> string + contract_state" where
  "call (UploadEncryptedGenotype ctx i es pr) s = uploadEncryptedGenotype ctx i es pr s"
| "call (ComputePRS ctx i) s = computePRS ctx i s"
| "call (UpdateEffectSize ctx k v) s = updateEffectSize ctx k v s"

definition transact :: "transaction \<Rightarrow> contract_state \<Rightarrow> contract_state" where
  "transact tx s = (case call tx s of Inl reason \<Rightarrow> s | Inr s' \<Rightarrow> s')"

definition transact_all :: "transaction list \<Rightarrow> contract_state \<Rightarrow> contract_state" where
  "transact_all txs s = fold transact txs s"

text \<open>Concrete inputs: an uploaded genotype for the individual 7, and a caller.\<close>

definition genotype7 :: EncryptedGenotype where
  "genotype7 = \<lparr>snps = [2, 1, 2, 0, 1, 2, 2, 1, 2, 0, 1, 2, 2, 1, 2, 0, 1, 2, 2, 1], owner = 0xAB,
     timestamp = 1700000000, riskComputed = False, prsScore = 0, isHighRisk = False\<rparr>"

definition state7 :: contract_state where
  "state7 = deployed\<lparr>genotypeData := (genotypeData deployed)(7 := genotype7)\<rparr>"

definition ctx0 :: call_context where
  "ctx0 = \<lparr>msg_sender = 0xCD, block_timestamp = 1700000100, this_address = 0xEE,
     FHE_fromExternal = (\<lambda>h pr. if pr = [] then None else Some (ucast h))\<rparr>"


declare prs_loop.simps [simp del] upload_loop.simps [simp del]

section \<open>The decryption-signature manager\<close>

text \<open>
  Modelled from the spec: the class \<^verbatim>\<open>FhevmDecryptionSignature\<close>, with its validity check
  and \<^verbatim>\<open>loadOrSign\<close>, is imported by the decrypt button from a file that is missing.
  The definitions of this section follow sections 3 and 4.5 of the specification.

  A signature is valid at the time \<open>now\<close> for the contract addresses \<open>addrs\<close> iff \<open>now\<close> is
  in \<open>[startTimestamp, startTimestamp + durationDays * 86400)\<close> and every address of
  \<open>addrs\<close> is a member of its contract addresses. It is unexpired before the end of that
  interval.
\<close>

definition signature_valid :: "UserDecryptSignature \<Rightarrow> int \<Rightarrow> address list \<Rightarrow> bool" where
  "signature_valid sig now addrs \<longleftrightarrow>
     startTimestamp sig \<le> now \<and> now < startTimestamp sig + durationDays sig * 86400
     \<and> set addrs \<subseteq> set (contractAddresses sig)"

definition unexpired :: "UserDecryptSignature \<Rightarrow> int \<Rightarrow> bool" where
  "unexpired sig now \<longleftrightarrow> now < startTimestamp sig + durationDays sig * 86400"

text \<open>
  Modelled from the spec: the normalisation of the contract addresses in the missing
  \<^verbatim>\<open>loadOrSign\<close> (lower-case, de-duplicate, sort).
\<close>

definition to_lower :: "char \<Rightarrow> char" where
  "to_lower c = (let n = (of_char c :: nat) in if 65 \<le> n \<and> n \<le> 90 then char_of (n + 32) else c)"

definition normalize_addresses :: "address list \<Rightarrow> address list" where
  "normalize_addresses addrs = sort (remdups (map (map to_lower) addrs))"

text \<open>
  Modelled from the spec: the data of the missing \<^verbatim>\<open>loadOrSign\<close>.
  The cache key is a stable hash of the user address, the normalised contract addresses
  and the instance's key id: it is modelled by the triple itself. The store holds the
  serialised signature under the key: it is modelled by a map to the record. The payload
  is what the wallet is asked to sign; every request is a prompt to the user, who may
  reject it. The key pairs are fresh: the \<open>n\<close>-th one drawn is \<open>generate_keypair n\<close>.
\<close>

type_synonym cache_key = "address \<times> address list \<times> string"

record typed_payload =
  payload_ephemeralPublicKey :: string
  payload_contractAddresses :: "address list"
  payload_startTimestamp :: int
  payload_durationDays :: int

record wallet_signer =
  signer_address :: address
  request_signature :: "typed_payload \<Rightarrow> js_error + string"

record signing_instance =
  key_id :: string
  generate_keypair :: "nat \<Rightarrow> string \<times> string"

record sign_world =
  signature_store :: "cache_key \<rightharpoonup> UserDecryptSignature"
  prompts :: "typed_payload list"
  keypairs_drawn :: nat

definition cache_key_of :: "signing_instance \<Rightarrow> address list \<Rightarrow> wallet_signer \<Rightarrow> cache_key" where
  "cache_key_of inst addrs signer = (signer_address signer, normalize_addresses addrs, key_id inst)"

text \<open>
  Modelled from the spec: step 3 of the missing \<^verbatim>\<open>loadOrSign\<close>: a fresh key pair, the payload with \<open>startTimestamp = now\<close>
  and the policy's duration, the request to the wallet, and on success the signature is
  stored and returned.
\<close>

definition sign_fresh ::
  "int \<Rightarrow> signing_instance \<Rightarrow> address list \<Rightarrow> wallet_signer \<Rightarrow> int \<Rightarrow> sign_world
     \<Rightarrow> (js_error + UserDecryptSignature) \<times> sign_world" where
  "sign_fresh policy_days inst addrs signer now w =
     (let (priv, pub) = generate_keypair inst (keypairs_drawn w);
          payload = \<lparr>payload_ephemeralPublicKey = pub,
            payload_contractAddresses = normalize_addresses addrs,
            payload_startTimestamp = now, payload_durationDays = policy_days\<rparr>;
          w1 = w\<lparr>keypairs_drawn := Suc (keypairs_drawn w), prompts := prompts w @ [payload]\<rparr>
      in case request_signature signer payload of
           Inl e \<Rightarrow> (Inl e, w1)
         | Inr wallet_sig \<Rightarrow>
            (let sig = \<lparr>privateKey = priv, publicKey = pub, signature = wallet_sig,
                   contractAddresses = normalize_addresses addrs,
                   userAddress = signer_address signer, startTimestamp = now,
                   durationDays = policy_days\<rparr>
             in (Inr sig,
                 w1\<lparr>signature_store := (signature_store w1)(cache_key_of inst addrs signer \<mapsto> sig)\<rparr>)))"

text \<open>
  Modelled from the spec: the missing \<^verbatim>\<open>loadOrSign\<close>: an unexpired entry under the key is returned as it is; an expired one
  is removed, and a signature is then requested as when there is none.
\<close>

definition loadOrSign ::
  "int \<Rightarrow> signing_instance \<Rightarrow> address list \<Rightarrow> wallet_signer \<Rightarrow> int \<Rightarrow> sign_world
     \<Rightarrow> (js_error + UserDecryptSignature) \<times> sign_world" where
  "loadOrSign policy_days inst addrs signer now w =
     (case signature_store w (cache_key_of inst addrs signer) of
        Some sig \<Rightarrow>
          if unexpired sig now then (Inr sig, w)
          else sign_fresh policy_days inst addrs signer now
                 (w\<lparr>signature_store := (signature_store w)(cache_key_of inst addrs signer := None)\<rparr>)
      | None \<Rightarrow> sign_fresh policy_days inst addrs signer now w)"

text \<open>Concrete inputs.\<close>

definition inst0 :: signing_instance where
  "inst0 = \<lparr>key_id = ''key-1'', generate_keypair = (\<lambda>n. (''priv'', ''pub''))\<rparr>"

definition approving_wallet :: wallet_signer where
  "approving_wallet = \<lparr>signer_address = ''0xbb'', request_signature = (\<lambda>p. Inr ''0xsig'')\<rparr>"

definition empty_world :: sign_world where
  "empty_world = \<lparr>signature_store = Map.empty, prompts = [], keypairs_drawn = 0\<rparr>"

definition sig0 :: UserDecryptSignature where
  "sig0 = \<lparr>privateKey = ''priv'', publicKey = ''pub'', signature = ''0xsig'',
        contractAddresses = [''0xaa'', ''0xbb''], userAddress = ''0xbb'', startTimestamp = 1000,
        durationDays = 365\<rparr>"

definition signed_world :: sign_world where
  "signed_world = \<lparr>signature_store = [(''0xbb'', [''0xaa'', ''0xbb''], ''key-1'') \<mapsto> sig0],
       prompts = [\<lparr>payload_ephemeralPublicKey = ''pub'', payload_contractAddresses = [''0xaa'', ''0xbb''],
         payload_startTimestamp = 1000, payload_durationDays = 365\<rparr>],
       keypairs_drawn = 1\<rparr>"

section \<open>The encrypted-input builder\<close>




record EncryptedInput =
  handles :: "8 word list list"
  inputProof :: "8 word list"








section \<open>Properties of the decryption core\<close>

lemma copy_requests:
  "map (\<lambda>r. \<lparr>handle = handle r, contractAddress = contractAddress r\<rparr>) (requests :: DecryptRequest list)
     = requests"
  by (induction requests) simp_all

text \<open>
  C4. A call of \<^verbatim>\<open>userDecryptWithSignature\<close> makes exactly one relay call. The call
  carries the requests, each with its handle and contract address, in their order, then
  the private key, the public key, the wallet signature, the contract addresses, the user
  address, the start timestamp and the duration of the signature, in that order; and what
  the function returns is the relay's answer to that call, so a successful call returns
  the relay's map from handles to clear values unchanged.
\<close>

theorem userDecryptWithSignature_forwards:
  "calls (snd (userDecryptWithSignature inst requests sig net)) =
     calls net @ [UserDecryptCall requests (privateKey sig) (publicKey sig) (signature sig)
        (contractAddresses sig) (userAddress sig) (startTimestamp sig) (durationDays sig)]
   \<and> length (calls (snd (userDecryptWithSignature inst requests sig net))) = length (calls net) + 1
   \<and> fst (userDecryptWithSignature inst requests sig net) =
       relay_userDecrypt inst requests (privateKey sig) (publicKey sig) (signature sig)
        (contractAddresses sig) (userAddress sig) (startTimestamp sig) (durationDays sig)
   \<and> (fst (userDecryptWithSignature inst requests sig net) = Inr m \<longleftrightarrow>
       relay_userDecrypt inst requests (privateKey sig) (publicKey sig) (signature sig)
        (contractAddresses sig) (userAddress sig) (startTimestamp sig) (durationDays sig) = Inr m)"
  by (simp add: userDecryptWithSignature_def instance_userDecrypt_def copy_requests)

theorem userDecryptWithSignature_forwards_witness:
  "calls (snd (userDecryptWithSignature open_instance [req_aa, req_cc] sig_aa net0)) =
     [UserDecryptCall [req_aa, req_cc] ''priv'' ''pub'' ''0xsig'' [''0xaa''] ''0xbb'' 1000 365]
   \<and> fst (userDecryptWithSignature open_instance [req_aa, req_cc] sig_aa net0) =
       Inr (clear_all [req_aa, req_cc])"
  using userDecryptWithSignature_forwards [of open_instance "[req_aa, req_cc]" sig_aa net0]
  by (simp add: open_instance_def sig_aa_def net0_def)

text \<open>
  C7. \<^verbatim>\<open>publicDecrypt\<close> makes exactly one relay call, the instance's
  \<^verbatim>\<open>publicDecrypt\<close>, whose only argument is the list of requests as given (handles and
  contract addresses kept, in order), and returns the relay's answer. The call carries no
  signature, key or user address: \<open>PublicDecryptCall\<close> has no such argument.
\<close>

theorem publicDecrypt_forwards:
  "calls (snd (publicDecrypt inst requests net)) = calls net @ [PublicDecryptCall requests]
   \<and> fst (publicDecrypt inst requests net) = relay_publicDecrypt inst requests"
  by (simp add: publicDecrypt_def instance_publicDecrypt_def copy_requests)

theorem publicDecrypt_forwards_witness:
  "calls (snd (publicDecrypt open_instance [req_aa, req_cc] net0)) = [PublicDecryptCall [req_aa, req_cc]]
   \<and> fst (publicDecrypt open_instance [req_aa, req_cc] net0) = Inr (clear_all [req_aa, req_cc])"
  using publicDecrypt_forwards [of open_instance "[req_aa, req_cc]" net0]
  by (simp add: open_instance_def net0_def)

text \<open>
  C1, as the specification states it, fails: \<^verbatim>\<open>userDecryptWithSignature\<close> has no check of
  the requests against the signature. With a request for the contract \<open>0xcc\<close> and a
  signature for \<open>0xaa\<close> only, the relay is called and its answer is returned.
\<close>

theorem userDecrypt_scope_counterexample:
  "contractAddress req_cc \<notin> set (contractAddresses sig_aa)
   \<and> \<not> fails_with ''ScopeMismatch'' (fst (userDecryptWithSignature open_instance [req_cc] sig_aa net0))
   \<and> fst (userDecryptWithSignature open_instance [req_cc] sig_aa net0) = Inr (clear_all [req_cc])
   \<and> calls (snd (userDecryptWithSignature open_instance [req_cc] sig_aa net0)) =
       [UserDecryptCall [req_cc] ''priv'' ''pub'' ''0xsig'' [''0xaa''] ''0xbb'' 1000 365]"
  by (simp add: userDecryptWithSignature_def instance_userDecrypt_def fails_with_def
      open_instance_def sig_aa_def req_cc_def net0_def Let_def)

text \<open>
  C1, amended. \<^verbatim>\<open>userDecryptWithSignature\<close> does not compare the requests' contract
  addresses with the signature's: also when a request's contract address is not among
  \<^verbatim>\<open>sig.contractAddresses\<close>, it makes the relay call, and it fails with
  \<^verbatim>\<open>ScopeMismatch\<close> only if the relay's answer is that failure.
\<close>

theorem userDecrypt_no_scope_check:
  assumes "r \<in> set requests" and "contractAddress r \<notin> set (contractAddresses sig)"
  shows "calls (snd (userDecryptWithSignature inst requests sig net)) \<noteq> calls net
    \<and> (fails_with ''ScopeMismatch'' (fst (userDecryptWithSignature inst requests sig net)) \<longleftrightarrow>
         fails_with ''ScopeMismatch'' (relay_userDecrypt inst requests (privateKey sig) (publicKey sig)
           (signature sig) (contractAddresses sig) (userAddress sig) (startTimestamp sig)
           (durationDays sig)))"
  by (simp add: userDecryptWithSignature_def instance_userDecrypt_def copy_requests)

theorem userDecrypt_no_scope_check_witness:
  "req_cc \<in> set [req_aa, req_cc] \<and> contractAddress req_cc \<notin> set (contractAddresses sig_aa)
   \<and> calls (snd (userDecryptWithSignature open_instance [req_aa, req_cc] sig_aa net0)) \<noteq> calls net0
   \<and> \<not> fails_with ''ScopeMismatch'' (fst (userDecryptWithSignature open_instance [req_aa, req_cc] sig_aa net0))"
proof -
  have a: "req_cc \<in> set [req_aa, req_cc]" by simp
  have b: "contractAddress req_cc \<notin> set (contractAddresses sig_aa)"
    by (simp add: req_cc_def sig_aa_def)
  have c: "\<not> fails_with ''ScopeMismatch'' (relay_userDecrypt open_instance [req_aa, req_cc]
      (privateKey sig_aa) (publicKey sig_aa) (signature sig_aa) (contractAddresses sig_aa)
      (userAddress sig_aa) (startTimestamp sig_aa) (durationDays sig_aa))"
    by (simp add: open_instance_def fails_with_def)
  from userDecrypt_no_scope_check [OF a b, of open_instance net0] c a b
  show ?thesis by blast
qed


subsection \<open>The decrypt button\<close>

lemma set_foldl_set_add: "set (foldl set_add acc xs) = set acc \<union> set xs"
  by (induction xs arbitrary: acc) (auto simp: set_add_def)

lemma distinct_foldl_set_add: "distinct acc \<Longrightarrow> distinct (foldl set_add acc xs)"
  by (induction xs arbitrary: acc) (auto simp: set_add_def)

lemma set_array_from_new_Set: "set (array_from_new_Set xs) = set xs"
  by (simp add: array_from_new_Set_def set_foldl_set_add)

lemma distinct_array_from_new_Set: "distinct (array_from_new_Set xs)"
  by (simp add: array_from_new_Set_def distinct_foldl_set_add)

lemma net_on_catch: "relay_net (on_catch e w) = relay_net w"
  by (simp add: on_catch_def Let_def)

lemma net_decrypt_with:
  "calls (relay_net (decrypt_with p inst requests sig w)) =
     calls (relay_net w) @ [UserDecryptCall requests (privateKey sig) (publicKey sig) (signature sig)
        (contractAddresses sig) (userAddress sig) (startTimestamp sig) (durationDays sig)]"
  by (simp add: decrypt_with_def userDecryptWithSignature_def instance_userDecrypt_def
      copy_requests net_on_catch Let_def split: sum.splits option.splits)

lemma sign_requests_on_catch: "sign_requests (on_catch e w) = sign_requests w"
  by (simp add: on_catch_def Let_def)

lemma sign_requests_decrypt_with: "sign_requests (decrypt_with p inst requests sig w) = sign_requests w"
  by (simp add: decrypt_with_def sign_requests_on_catch Let_def split: sum.splits option.splits prod.splits)

text \<open>
  C6. With an instance, a signer and a non-empty list of requests, a click asks
  \<^verbatim>\<open>loadOrSign\<close> once, for a list of contract addresses that has no duplicates and whose
  elements are exactly the contract addresses occurring among the requests, so that every
  request's contract address is in it. When \<^verbatim>\<open>loadOrSign\<close> returns a signature, the
  click then makes one \<^verbatim>\<open>userDecrypt\<close> relay call, with the requests as given and the
  seven fields of that signature.
\<close>

theorem onClick_signature_scope:
  assumes "p_instance p = Some inst" and "p_signer p = Some signer"
    and "p_requests p = Some requests" and "requests \<noteq> []"
  shows "\<exists>addrs. sign_requests (onClick los p w) = sign_requests w @ [addrs]
      \<and> addrs = array_from_new_Set (map contractAddress requests)
      \<and> distinct addrs
      \<and> set addrs = contractAddress ` set requests
      \<and> (\<forall>r \<in> set requests. contractAddress r \<in> set addrs)
      \<and> (\<forall>sig. fst (los inst addrs signer (storage w)) = Inr (Some sig) \<longrightarrow>
           calls (relay_net (onClick los p w)) =
             calls (relay_net w) @ [UserDecryptCall requests (privateKey sig) (publicKey sig) (signature sig)
               (contractAddresses sig) (userAddress sig) (startTimestamp sig) (durationDays sig)])"
proof -
  let ?addrs = "array_from_new_Set (map contractAddress requests)"
  have sr: "sign_requests (onClick los p w) = sign_requests w @ [?addrs]"
    using assms
    by (simp add: onClick_def on_finally_def sign_requests_on_catch sign_requests_decrypt_with
        Let_def split: prod.splits sum.splits option.splits)
  have nt: "calls (relay_net (onClick los p w)) =
      calls (relay_net w) @ [UserDecryptCall requests (privateKey sig) (publicKey sig) (signature sig)
        (contractAddresses sig) (userAddress sig) (startTimestamp sig) (durationDays sig)]"
    if "fst (los inst ?addrs signer (storage w)) = Inr (Some sig)" for sig
    using assms that
    by (auto simp: onClick_def on_finally_def net_decrypt_with Let_def split: prod.splits)
  have st: "set ?addrs = contractAddress ` set requests"
    by (simp add: set_array_from_new_Set)
  show ?thesis
    using sr nt st distinct_array_from_new_Set [of "map contractAddress requests"]
    by (intro exI [of _ ?addrs]) auto
qed

theorem onClick_signature_scope_witness:
  "sign_requests (onClick sign_any props0 world0) = [[''0xcc'', ''0xaa'']]
   \<and> calls (relay_net (onClick sign_any props0 world0)) =
       [UserDecryptCall [req_cc, req_aa, req_cc] ''priv'' ''pub'' ''0xsig'' [''0xcc'', ''0xaa'']
          ''0xbb'' 1000 365]"
proof -
  have a: "p_instance props0 = Some open_instance" "p_signer props0 = Some ()"
    "p_requests props0 = Some [req_cc, req_aa, req_cc]" "[req_cc, req_aa, req_cc] \<noteq> []"
    by (simp_all add: props0_def)
  have addrs: "array_from_new_Set (map contractAddress [req_cc, req_aa, req_cc]) = [''0xcc'', ''0xaa'']"
    by (simp add: array_from_new_Set_def set_add_def req_cc_def req_aa_def)
  have got: "fst (sign_any open_instance [''0xcc'', ''0xaa''] () (storage world0)) =
      Inr (Some \<lparr>privateKey = ''priv'', publicKey = ''pub'', signature = ''0xsig'',
        contractAddresses = [''0xcc'', ''0xaa''], userAddress = ''0xbb'', startTimestamp = 1000,
        durationDays = 365\<rparr>)"
    by (simp add: sign_any_def)
  from onClick_signature_scope [OF a, of sign_any world0] addrs got
  show ?thesis by (auto simp: world0_def net0_def)
qed


subsection \<open>The ABI-driven encrypt button\<close>

lemma buildFn_calls_exact:
  "\<forall>e. fst (buildFn ms vals st) \<noteq> Some (BuilderError e) \<Longrightarrow>
     map Inr (add_calls (snd (buildFn ms vals st))) =
       map Inr (add_calls st) @ map call_for (takeWhile converts vals)"
proof (induction vals arbitrary: st)
  case Nil
  show ?case by simp
next
  case (Cons v vs)
  show ?case
  proof (cases "call_for v")
    case (Inl e)
    then show ?thesis by (simp add: converts_def)
  next
    case (Inr c)
    show ?thesis
    proof (cases "invoke ms c (builder st)")
      case (Inl e)
      with Inr Cons.prems show ?thesis by simp
    next
      case inv: (Inr b')
      let ?st = "st\<lparr>add_calls := add_calls st @ [c], builder := b'\<rparr>"
      from Cons.prems Inr inv have "\<forall>e. fst (buildFn ms vs ?st) \<noteq> Some (BuilderError e)"
        by simp
      from Cons.IH [OF this] Inr inv show ?thesis by (simp add: converts_def)
    qed
  qed
qed

lemma buildFn_builder_error:
  "fst (buildFn ms vals st) = Some (BuilderError e) \<Longrightarrow>
     \<exists>n. 0 < n \<and> n \<le> length (takeWhile converts vals) \<and>
       map Inr (add_calls (snd (buildFn ms vals st))) =
         map Inr (add_calls st) @ take n (map call_for vals)"
proof (induction vals arbitrary: st)
  case Nil
  then show ?case by simp
next
  case (Cons v vs)
  from Cons.prems obtain c where c: "call_for v = Inr c"
    by (cases "call_for v") auto
  then have cv: "converts v" by (simp add: converts_def)
  show ?case
  proof (cases "invoke ms c (builder st)")
    case (Inl e')
    with c have "map Inr (add_calls (snd (buildFn ms (v # vs) st))) =
        map Inr (add_calls st) @ take 1 (map call_for (v # vs))"
      by simp
    moreover have "(0::nat) < 1" "1 \<le> length (takeWhile converts (v # vs))"
      using cv by simp_all
    ultimately show ?thesis by blast
  next
    case inv: (Inr b')
    let ?st = "st\<lparr>add_calls := add_calls st @ [c], builder := b'\<rparr>"
    from Cons.prems c inv have "fst (buildFn ms vs ?st) = Some (BuilderError e)"
      by simp
    from Cons.IH [OF this] obtain n where n: "0 < n" "n \<le> length (takeWhile converts vs)"
      "map Inr (add_calls (snd (buildFn ms vs ?st))) = map Inr (add_calls ?st) @ take n (map call_for vs)"
      by blast
    from n(3) c inv have "map Inr (add_calls (snd (buildFn ms (v # vs) st))) =
        map Inr (add_calls st) @ take (Suc n) (map call_for (v # vs))"
      by simp
    moreover have "0 < Suc n" "Suc n \<le> length (takeWhile converts (v # vs))"
      using n(2) cv by simp_all
    ultimately show ?thesis by blast
  qed
qed

lemma buildFn_returns:
  "fst (buildFn ms vals st) = None \<Longrightarrow> takeWhile converts vals = vals"
proof (induction vals arbitrary: st)
  case Nil
  show ?case by simp
next
  case (Cons v vs)
  from Cons.prems obtain c where c: "call_for v = Inr c"
    by (cases "call_for v") auto
  with Cons.prems obtain b' where b': "invoke ms c (builder st) = Inr b'"
    by (cases "invoke ms c (builder st)") auto
  from Cons.prems c b'
  have "fst (buildFn ms vs (st\<lparr>add_calls := add_calls st @ [c], builder := b'\<rparr>)) = None"
    by simp
  from Cons.IH [OF this] c show ?case by (simp add: converts_def)
qed

lemma buildFn_conversion_error:
  "fst (buildFn ms vals st) = Some (ConversionError e) \<Longrightarrow>
     length (takeWhile converts vals) < length vals \<and>
     call_for (vals ! length (takeWhile converts vals)) = Inl e"
proof (induction vals arbitrary: st)
  case Nil
  then show ?case by simp
next
  case (Cons v vs)
  show ?case
  proof (cases "call_for v")
    case (Inl e')
    with Cons.prems show ?thesis by (simp add: converts_def)
  next
    case (Inr c)
    with Cons.prems obtain b' where b': "invoke ms c (builder st) = Inr b'"
      by (cases "invoke ms c (builder st)") auto
    from Cons.prems Inr b'
    have "fst (buildFn ms vs (st\<lparr>add_calls := add_calls st @ [c], builder := b'\<rparr>)) =
        Some (ConversionError e)"
      by simp
    from Cons.IH [OF this] Inr show ?thesis by (simp add: converts_def)
  qed
qed

lemma buildFn_accepting:
  "\<forall>c b. \<exists>b'. invoke ms c b = Inr b' \<Longrightarrow> fst (buildFn ms vals st) \<noteq> Some (BuilderError e)"
proof (induction vals arbitrary: st)
  case Nil
  show ?case by simp
next
  case (Cons v vs)
  show ?case
  proof (cases "call_for v")
    case (Inl e')
    then show ?thesis by simp
  next
    case (Inr c)
    from Cons.prems obtain b' where b': "invoke ms c (builder st) = Inr b'" by blast
    from Cons.IH [OF Cons.prems, of "st\<lparr>add_calls := add_calls st @ [c], builder := b'\<rparr>"] Inr b'
    show ?thesis by simp
  qed
qed

text \<open>
  C8, as stated, fails: \<^verbatim>\<open>BigInt\<close> throws on a string that is no integer literal, the
  loop ends there, and neither that element nor the boolean after it produces an add-call.
\<close>

theorem buildFn_counterexample:
  "fst (buildFn counting_builder [JString (code_units ''abc''), JBoolean True] fresh_build) =
      Some (ConversionError SyntaxError)
   \<and> add_calls (snd (buildFn counting_builder [JString (code_units ''abc''), JBoolean True] fresh_build)) = []
   \<and> length (add_calls (snd (buildFn counting_builder [JString (code_units ''abc''), JBoolean True] fresh_build)))
      \<noteq> length [JString (code_units ''abc''), JBoolean True]"
  by (simp add: fresh_build_def bigint_defs)

text \<open>
  C8, amended. Every element of \<^verbatim>\<open>values\<close> before the first one whose \<^verbatim>\<open>BigInt\<close>
  conversion throws produces exactly one add-call, in array order: \<^verbatim>\<open>addBool\<close> for a
  boolean and \<^verbatim>\<open>add64\<close> of the \<^verbatim>\<open>BigInt\<close> conversion for a number or a string,
  whatever the ABI declares; the element whose conversion throws and the elements after
  it produce none. This holds whenever no add-call itself throws, so for every builder
  that takes every value. An add-call that throws is the last one made: the calls are
  then those of the first \<open>n\<close> elements, for some \<open>n > 0\<close> within the elements before the
  first failing conversion. When the loop ends with a conversion error, it is the error of
  the first element that does not convert. When it ends without an exception, every
  element of \<^verbatim>\<open>values\<close> has produced exactly one add-call.
\<close>

theorem buildFn_add_calls:
  assumes "add_calls st = []"
  shows "((\<forall>e. fst (buildFn ms vals st) \<noteq> Some (BuilderError e)) \<longrightarrow>
            map Inr (add_calls (snd (buildFn ms vals st))) = map call_for (takeWhile converts vals))
    \<and> ((\<forall>c b. \<exists>b'. invoke ms c b = Inr b') \<longrightarrow>
            map Inr (add_calls (snd (buildFn ms vals st))) = map call_for (takeWhile converts vals))
    \<and> (\<forall>e. fst (buildFn ms vals st) = Some (BuilderError e) \<longrightarrow>
          (\<exists>n. 0 < n \<and> n \<le> length (takeWhile converts vals) \<and>
             map Inr (add_calls (snd (buildFn ms vals st))) = take n (map call_for vals)))
    \<and> (\<forall>e. fst (buildFn ms vals st) = Some (ConversionError e) \<longrightarrow>
          length (takeWhile converts vals) < length vals \<and>
          call_for (vals ! length (takeWhile converts vals)) = Inl e)
    \<and> (fst (buildFn ms vals st) = None \<longrightarrow>
         map Inr (add_calls (snd (buildFn ms vals st))) = map call_for vals
         \<and> length (add_calls (snd (buildFn ms vals st))) = length vals)"
proof -
  have exact: "map Inr (add_calls (snd (buildFn ms vals st))) = map call_for (takeWhile converts vals)"
    if "\<forall>e. fst (buildFn ms vals st) \<noteq> Some (BuilderError e)"
    using buildFn_calls_exact [OF that] assms by simp
  have acc: "map Inr (add_calls (snd (buildFn ms vals st))) = map call_for (takeWhile converts vals)"
    if "\<forall>c b. \<exists>b'. invoke ms c b = Inr b'"
    using exact buildFn_accepting [OF that] by blast
  have berr: "\<exists>n. 0 < n \<and> n \<le> length (takeWhile converts vals) \<and>
      map Inr (add_calls (snd (buildFn ms vals st))) = take n (map call_for vals)"
    if "fst (buildFn ms vals st) = Some (BuilderError e)" for e
    using buildFn_builder_error [OF that] assms by simp
  have cerr: "length (takeWhile converts vals) < length vals \<and>
      call_for (vals ! length (takeWhile converts vals)) = Inl e"
    if "fst (buildFn ms vals st) = Some (ConversionError e)" for e
    using that by (rule buildFn_conversion_error)
  have all: "map Inr (add_calls (snd (buildFn ms vals st))) = map call_for vals
      \<and> length (add_calls (snd (buildFn ms vals st))) = length vals"
    if n: "fst (buildFn ms vals st) = None"
  proof -
    from n have "\<forall>e. fst (buildFn ms vals st) \<noteq> Some (BuilderError e)" by simp
    from exact [OF this] buildFn_returns [OF n]
    have m: "map Inr (add_calls (snd (buildFn ms vals st))) = map call_for vals" by simp
    have "length (map (Inr :: add_call \<Rightarrow> conversion_error + add_call)
        (add_calls (snd (buildFn ms vals st)))) = length (map call_for vals)"
      by (simp only: m)
    then have "length (add_calls (snd (buildFn ms vals st))) = length vals" by simp
    with m show ?thesis by simp
  qed
  from exact acc berr cerr all show ?thesis by blast
qed

lemma mixed_calls:
  "map call_for (takeWhile converts mixed_values) = map Inr [AddBool True, Add64 5, Add64 7]"
  by (simp add: mixed_values_def converts_def bigint_defs)

theorem buildFn_add_calls_witness:
  "add_calls fresh_build = []
   \<and> add_calls (snd (buildFn counting_builder mixed_values fresh_build)) = [AddBool True, Add64 5, Add64 7]
   \<and> fst (buildFn counting_builder scenario_values fresh_build) = None
   \<and> add_calls (snd (buildFn counting_builder scenario_values fresh_build))
       = [AddBool True, Add64 5, Add64 1000000]"
proof -
  have a: "add_calls fresh_build = []" by (simp add: fresh_build_def)
  have acc: "\<forall>c b. \<exists>b'. invoke counting_builder c b = Inr b'"
  proof (intro allI)
    fix c b show "\<exists>b'. invoke counting_builder c b = Inr b'"
      by (cases c) (simp_all add: counting_builder_def)
  qed
  have b: "fst (buildFn counting_builder scenario_values fresh_build) = None"
    by (simp add: scenario_values_def fresh_build_def counting_builder_def bigint_defs)
  have c: "map call_for scenario_values = map Inr [AddBool True, Add64 5, Add64 1000000]"
    by (simp add: scenario_values_def bigint_defs)
  from buildFn_add_calls [OF a, of counting_builder mixed_values] acc
  have "map Inr (add_calls (snd (buildFn counting_builder mixed_values fresh_build)))
      = map call_for (takeWhile converts mixed_values)"
    by blast
  then have "map (Inr :: add_call \<Rightarrow> conversion_error + add_call)
      (add_calls (snd (buildFn counting_builder mixed_values fresh_build)))
      = map Inr [AddBool True, Add64 5, Add64 7]"
    by (simp only: mixed_calls)
  then have m: "add_calls (snd (buildFn counting_builder mixed_values fresh_build)) = [AddBool True, Add64 5, Add64 7]"
    by (rule map_injective) simp
  from buildFn_add_calls [OF a, of counting_builder scenario_values] b
  have "map Inr (add_calls (snd (buildFn counting_builder scenario_values fresh_build)))
      = map call_for scenario_values"
    by blast
  then have "map (Inr :: add_call \<Rightarrow> conversion_error + add_call)
      (add_calls (snd (buildFn counting_builder scenario_values fresh_build)))
      = map Inr [AddBool True, Add64 5, Add64 1000000]"
    by (simp only: c)
  then have f: "add_calls (snd (buildFn counting_builder scenario_values fresh_build)) = [AddBool True, Add64 5, Add64 1000000]"
    by (rule map_injective) simp
  from a m b f show ?thesis by blast
qed

subsection \<open>The contract PRSCompute\<close>

lemma prs_loop_sum:
  "i \<le> NUM_SNPS \<Longrightarrow> prs_loop g es i acc = acc + (\<Sum>k = unat i..<20. g ! k * es ! k)"
proof (induction g es i acc rule: prs_loop.induct)
  case (1 g es i acc)
  show ?case
  proof (cases "i < NUM_SNPS")
    case True
    then have i20: "unat i < 20" by (simp add: NUM_SNPS_def word_less_nat_alt)
    then have s: "unat (i + 1) = Suc (unat i)" by (simp add: unat_word_ariths)
    have le: "i + 1 \<le> NUM_SNPS" using i20 s by (simp add: NUM_SNPS_def word_le_nat_alt)
    have "prs_loop g es i acc = prs_loop g es (i + 1) (FHE_add acc (FHE_mul (g ! unat i) (FHE_asEuint32 (es ! unat i))))"
      using True by (subst prs_loop.simps) (simp add: Let_def)
    also have "\<dots> = acc + g ! unat i * es ! unat i + (\<Sum>k = Suc (unat i)..<20. g ! k * es ! k)"
      using "1.IH" [OF True refl le] s by (simp add: FHE_add_def FHE_mul_def FHE_asEuint32_def)
    also have "\<dots> = acc + (\<Sum>k = unat i..<20. g ! k * es ! k)"
      using i20 by (simp add: sum.atLeast_Suc_lessThan add.assoc)
    finally show ?thesis .
  next
    case False
    with "1.prems" have "i = NUM_SNPS" by simp
    then show ?thesis by (subst prs_loop.simps) (simp add: NUM_SNPS_def)
  qed
qed

lemma unat_word_sum:
  "unat (\<Sum>k<n. (f k :: 32 word) * g k) = (\<Sum>k<n. unat (f k) * unat (g k)) mod 2 ^ 32"
proof -
  have "(\<Sum>k<n. f k * g k) = of_nat (\<Sum>k<n. unat (f k) * unat (g k))"
    by (simp)
  then show ?thesis by (simp add: unat_of_nat del: of_nat_sum of_nat_mult)
qed


lemma genotype7_sum: "(\<Sum>k<20. snps genotype7 ! k * effectSizes state7 ! k) = (77 :: 32 word)"
  by code_simp

lemma prs_loop_from_0:
  "prs_loop g es 0 (FHE_asEuint32 0) = (\<Sum>k<20. g ! k * es ! k)"
  using prs_loop_sum [of 0 g es 0] by (simp add: FHE_asEuint32_def atLeast0LessThan)

lemma call_keeps_computed:
  assumes "owner (genotypeData s i) \<noteq> 0" and "riskComputed (genotypeData s i)"
  shows "genotypeData (transact tx s) i = genotypeData s i"
proof (cases tx)
  case (UploadEncryptedGenotype ctx j es pr)
  then show ?thesis using assms
    by (auto simp: transact_def uploadEncryptedGenotype_def Let_def
        split: sum.splits if_splits option.splits prod.splits)
next
  case (ComputePRS ctx j)
  then show ?thesis using assms
    by (auto simp: transact_def computePRS_def Let_def split: sum.splits if_splits)
next
  case (UpdateEffectSize ctx k v)
  then show ?thesis
    by (auto simp: transact_def updateEffectSize_def split: sum.splits if_splits)
qed

lemma transact_all_keeps_computed:
  "owner (genotypeData s i) \<noteq> 0 \<Longrightarrow> riskComputed (genotypeData s i) \<Longrightarrow>
     genotypeData (transact_all txs s) i = genotypeData s i"
proof (induction txs arbitrary: s)
  case Nil
  show ?case by (simp add: transact_all_def)
next
  case (Cons tx txs)
  have k: "genotypeData (transact tx s) i = genotypeData s i"
    using Cons.prems by (rule call_keeps_computed)
  have "genotypeData (transact_all txs (transact tx s)) i = genotypeData (transact tx s) i"
    using Cons.prems k by (intro Cons.IH) simp_all
  with k show ?case by (simp add: transact_all_def)
qed

text \<open>
  C9. When \<^verbatim>\<open>computePRS(individualId)\<close> is called for an uploaded genotype whose risk
  has not been computed, it succeeds; afterwards \<^verbatim>\<open>prsScore\<close> holds the sum over
  \<open>i < 20\<close> of \<^verbatim>\<open>snps[i] * effectSizes[i]\<close>, computed on 32-bit values (so modulo
  \<open>2^32\<close>), \<^verbatim>\<open>isHighRisk\<close> holds the comparison of that sum with 50, and
  \<^verbatim>\<open>riskComputed\<close> is true. After any further transactions, a call of
  \<^verbatim>\<open>computePRS\<close> for the same individual reverts with "Risk already computed", and the
  stored genotype record is as the first call left it.
\<close>

theorem computePRS_result:
  assumes "owner (genotypeData s individualId) \<noteq> 0"
    and "\<not> riskComputed (genotypeData s individualId)"
  shows "\<exists>s'. computePRS ctx individualId s = Inr s'
      \<and> prsScore (genotypeData s' individualId) =
          (\<Sum>k<20. snps (genotypeData s individualId) ! k * effectSizes s ! k)
      \<and> unat (prsScore (genotypeData s' individualId)) =
          (\<Sum>k<20. unat (snps (genotypeData s individualId) ! k) * unat (effectSizes s ! k)) mod 2 ^ 32
      \<and> isHighRisk (genotypeData s' individualId) = (50 < prsScore (genotypeData s' individualId))
      \<and> riskComputed (genotypeData s' individualId)
      \<and> snps (genotypeData s' individualId) = snps (genotypeData s individualId)
      \<and> owner (genotypeData s' individualId) = owner (genotypeData s individualId)
      \<and> computePRS ctx' individualId (transact_all txs s') = Inl ''Risk already computed''
      \<and> genotypeData (transact (ComputePRS ctx' individualId) (transact_all txs s')) individualId
          = genotypeData s' individualId"
proof -
  let ?g = "genotypeData s individualId"
  let ?sum = "\<Sum>k<20. snps ?g ! k * effectSizes s ! k"
  obtain s' where s': "computePRS ctx individualId s = Inr s'"
    using assms by (simp add: computePRS_def Let_def)
  have g': "genotypeData s' individualId =
      ?g\<lparr>prsScore := ?sum, isHighRisk := FHE_gt ?sum (FHE_asEuint32 RISK_THRESHOLD), riskComputed := True\<rparr>"
    using s' assms by (auto simp: computePRS_def Let_def prs_loop_from_0)
  have own: "owner (genotypeData s' individualId) \<noteq> 0" and rc: "riskComputed (genotypeData s' individualId)"
    using g' assms by simp_all
  have later: "genotypeData (transact_all txs s') individualId = genotypeData s' individualId"
    using own rc by (rule transact_all_keeps_computed)
  have rev: "computePRS ctx' individualId (transact_all txs s') = Inl ''Risk already computed''"
    using later own rc by (simp add: computePRS_def)
  have same: "genotypeData (transact (ComputePRS ctx' individualId) (transact_all txs s')) individualId
      = genotypeData s' individualId"
    using rev later by (simp add: transact_def)
  have hr: "isHighRisk (genotypeData s' individualId) = (50 < prsScore (genotypeData s' individualId))"
    using g' by (simp add: FHE_gt_def FHE_asEuint32_def RISK_THRESHOLD_def)
  have un: "unat (prsScore (genotypeData s' individualId)) =
      (\<Sum>k<20. unat (snps ?g ! k) * unat (effectSizes s ! k)) mod 2 ^ 32"
    using g' unat_word_sum [of "\<lambda>k. snps ?g ! k" "\<lambda>k. effectSizes s ! k" 20] by simp
  from s' g' hr un rev same show ?thesis by simp
qed

theorem computePRS_result_witness:
  "owner (genotypeData state7 7) \<noteq> 0 \<and> \<not> riskComputed (genotypeData state7 7)
   \<and> (\<exists>s'. computePRS ctx0 7 state7 = Inr s'
        \<and> prsScore (genotypeData s' 7) = 77
        \<and> isHighRisk (genotypeData s' 7)
        \<and> riskComputed (genotypeData s' 7)
        \<and> computePRS ctx0 7 (transact_all [UpdateEffectSize ctx0 0 9] s') = Inl ''Risk already computed'')"
proof -
  have g: "genotypeData state7 7 = genotype7" by (simp add: state7_def)
  have a: "owner (genotypeData state7 7) \<noteq> 0" by (simp add: g genotype7_def)
  have b: "\<not> riskComputed (genotypeData state7 7)" by (simp add: g genotype7_def)
  from computePRS_result [OF a b, of ctx0 ctx0 "[UpdateEffectSize ctx0 0 9]"]
  obtain s' where s': "computePRS ctx0 7 state7 = Inr s'"
    "prsScore (genotypeData s' 7) = (\<Sum>k<20. snps (genotypeData state7 7) ! k * effectSizes state7 ! k)"
    "isHighRisk (genotypeData s' 7) = (50 < prsScore (genotypeData s' 7))"
    "riskComputed (genotypeData s' 7)"
    "computePRS ctx0 7 (transact_all [UpdateEffectSize ctx0 0 9] s') = Inl ''Risk already computed''"
    by blast
  from s'(2) have "prsScore (genotypeData s' 7) = 77" by (simp only: g genotype7_sum)
  with s' a b show ?thesis by simp
qed

text \<open>
  C10. \<^verbatim>\<open>updateEffectSize\<close> does not look at the caller. For every context of the
  call, so for every sender, and every \<^verbatim>\<open>snpIndex\<close> below 20 it succeeds: the entry at
  \<^verbatim>\<open>snpIndex\<close> becomes \<^verbatim>\<open>newValue\<close>, every other entry is unchanged, and so is the
  genotype data. It reverts, with "Invalid SNP index", exactly when \<^verbatim>\<open>snpIndex\<close> is 20 or
  more, and the state is then unchanged.
\<close>

theorem updateEffectSize_any_sender:
  assumes "length (effectSizes s) = 20"
  shows "(snpIndex < 20 \<longrightarrow>
           (\<exists>s'. updateEffectSize ctx snpIndex newValue s = Inr s'
              \<and> effectSizes s' ! unat snpIndex = newValue
              \<and> (\<forall>j<20. j \<noteq> unat snpIndex \<longrightarrow> effectSizes s' ! j = effectSizes s ! j)
              \<and> length (effectSizes s') = 20
              \<and> genotypeData s' = genotypeData s))
    \<and> (updateEffectSize ctx snpIndex newValue s = Inl ''Invalid SNP index'' \<longleftrightarrow> 20 \<le> snpIndex)
    \<and> (20 \<le> snpIndex \<longrightarrow> transact (UpdateEffectSize ctx snpIndex newValue) s = s)"
proof -
  have "unat snpIndex < 20" if "snpIndex < 20"
    using that by (simp add: word_less_nat_alt)
  then show ?thesis using assms
    by (auto simp: updateEffectSize_def NUM_SNPS_def transact_def)
qed

theorem updateEffectSize_any_sender_witness:
  "length (effectSizes deployed) = 20
   \<and> (\<exists>s'. updateEffectSize ctx0 3 9 deployed = Inr s' \<and> effectSizes s' ! 3 = 9
        \<and> effectSizes s' ! 2 = effectSizes deployed ! 2)
   \<and> updateEffectSize ctx0 20 9 deployed = Inl ''Invalid SNP index''
   \<and> transact (UpdateEffectSize ctx0 20 9) deployed = deployed"
proof -
  have a: "length (effectSizes deployed) = 20"
    by (simp add: deployed_def initial_effectSizes_def)
  have b: "updateEffectSize ctx0 20 9 deployed = Inl ''Invalid SNP index''"
    "transact (UpdateEffectSize ctx0 20 9) deployed = deployed"
    using updateEffectSize_any_sender [OF a, of 20 ctx0 9] by simp_all
  have "(3 :: uint256) < 20" by simp
  with updateEffectSize_any_sender [OF a, of 3 ctx0 9]
  obtain s' where s': "updateEffectSize ctx0 3 9 deployed = Inr s'"
    "effectSizes s' ! unat (3 :: uint256) = 9"
    "\<forall>j<20. j \<noteq> unat (3 :: uint256) \<longrightarrow> effectSizes s' ! j = effectSizes deployed ! j"
    by blast
  from s'(3) have "effectSizes s' ! 2 = effectSizes deployed ! 2" by simp
  with s'(1,2) have "\<exists>s'. updateEffectSize ctx0 3 9 deployed = Inr s' \<and> effectSizes s' ! 3 = 9
        \<and> effectSizes s' ! 2 = effectSizes deployed ! 2"
    by simp
  with a b show ?thesis by simp
qed

subsection \<open>The decryption-signature manager\<close>

text \<open>
  C2. A signature with \<open>startTimestamp = T\<close> and \<open>durationDays = D\<close>, asked for contract
  addresses that are all among its own, is valid at every time \<open>t\<close> with
  \<open>T \<le> t < T + D * 86400\<close>, so, when \<open>D\<close> is positive, at \<open>T\<close> and at
  \<open>T + D * 86400 - 1\<close>; it is invalid at \<open>T + D * 86400\<close> and at every later time. It is
  invalid at every time when one of the contract addresses asked for is not among its own.
\<close>

theorem signature_validity_window:
  assumes "startTimestamp sig = T" and "durationDays sig = D"
    and "set addrs \<subseteq> set (contractAddresses sig)"
  shows "(T \<le> t \<and> t < T + D * 86400 \<longrightarrow> signature_valid sig t addrs)
    \<and> (0 < D \<longrightarrow> signature_valid sig T addrs \<and> signature_valid sig (T + D * 86400 - 1) addrs)
    \<and> (T + D * 86400 \<le> t \<longrightarrow> \<not> signature_valid sig t addrs)
    \<and> (a \<notin> set (contractAddresses sig) \<longrightarrow> \<not> signature_valid sig t (a # addrs))
    \<and> (signature_valid sig t addrs \<longleftrightarrow> T \<le> t \<and> t < T + D * 86400)"
  using assms by (auto simp: signature_valid_def)

theorem signature_validity_window_witness:
  "signature_valid sig_aa 1000 [''0xaa''] \<and> signature_valid sig_aa (1000 + 365 * 86400 - 1) [''0xaa'']
   \<and> \<not> signature_valid sig_aa (1000 + 365 * 86400) [''0xaa'']
   \<and> \<not> signature_valid sig_aa 1000 [''0xcc'', ''0xaa'']"
proof -
  have a: "startTimestamp sig_aa = 1000" "durationDays sig_aa = 365"
    "set [''0xaa''] \<subseteq> set (contractAddresses sig_aa)"
    by (simp_all add: sig_aa_def)
  have b: "''0xcc'' \<notin> set (contractAddresses sig_aa)" by (simp add: sig_aa_def)
  from signature_validity_window [OF a, of "1000 + 365 * 86400" "''0xcc''"]
    signature_validity_window [OF a, of 1000 "''0xcc''"] b
  show ?thesis by simp
qed

lemma sign_fresh_result:
  assumes "sign_fresh policy_days inst addrs signer now w = (Inr sig, w1)"
  shows "signature_store w1 (cache_key_of inst addrs signer) = Some sig
    \<and> startTimestamp sig = now \<and> durationDays sig = policy_days
    \<and> prompts w1 = prompts w @ [\<lparr>payload_ephemeralPublicKey = publicKey sig,
            payload_contractAddresses = normalize_addresses addrs,
            payload_startTimestamp = now, payload_durationDays = policy_days\<rparr>]"
  using assms
  by (auto simp: sign_fresh_def Let_def split: prod.splits sum.splits)

lemma loadOrSign_hit:
  assumes "signature_store w (cache_key_of inst addrs signer) = Some sig" and "unexpired sig now"
  shows "loadOrSign policy_days inst addrs signer now w = (Inr sig, w)"
  using assms by (simp add: loadOrSign_def)

lemma loadOrSign_success:
  assumes "loadOrSign policy_days inst addrs signer now w = (Inr sig, w1)" and "0 < policy_days"
  shows "signature_store w1 (cache_key_of inst addrs signer) = Some sig \<and> unexpired sig now
    \<and> length (prompts w1) \<le> length (prompts w) + 1"
proof (cases "signature_store w (cache_key_of inst addrs signer)")
  case None
  with assms(1) have "sign_fresh policy_days inst addrs signer now w = (Inr sig, w1)"
    by (simp add: loadOrSign_def)
  from sign_fresh_result [OF this] assms(2) show ?thesis
    by (simp add: unexpired_def)
next
  case (Some old)
  show ?thesis
  proof (cases "unexpired old now")
    case True
    with Some assms(1) show ?thesis by (auto simp: loadOrSign_def)
  next
    case False
    with Some assms(1)
    have "sign_fresh policy_days inst addrs signer now
        (w\<lparr>signature_store := (signature_store w)(cache_key_of inst addrs signer := None)\<rparr>) = (Inr sig, w1)"
      by (simp add: loadOrSign_def)
    from sign_fresh_result [OF this] assms(2) show ?thesis
      by (simp add: unexpired_def)
  qed
qed

text \<open>
  C3. When the store holds, under the cache key of the user address, the normalised
  contract addresses and the instance's key id, a signature that is unexpired,
  \<^verbatim>\<open>loadOrSign\<close> returns that signature and changes nothing: the wallet is not asked
  and no key pair is drawn. So when a call of \<^verbatim>\<open>loadOrSign\<close> has returned a signature
  (with a positive policy duration), a second call at the same time for the same key
  returns the same signature, and both calls together have prompted the wallet at most
  once.
\<close>

theorem loadOrSign_reuses_cached:
  "(signature_store w (cache_key_of inst addrs signer) = Some sig \<and> unexpired sig now \<longrightarrow>
      loadOrSign policy_days inst addrs signer now w = (Inr sig, w)
      \<and> prompts (snd (loadOrSign policy_days inst addrs signer now w)) = prompts w)
   \<and> (0 < policy_days \<and> cache_key_of inst addrs2 signer = cache_key_of inst addrs signer
       \<and> loadOrSign policy_days inst addrs signer now w = (Inr sig1, w1) \<longrightarrow>
      loadOrSign policy_days inst addrs2 signer now w1 = (Inr sig1, w1)
      \<and> length (prompts (snd (loadOrSign policy_days inst addrs2 signer now w1))) \<le> length (prompts w) + 1)"
proof -
  have "loadOrSign policy_days inst addrs2 signer now w1 = (Inr sig1, w1)
      \<and> length (prompts w1) \<le> length (prompts w) + 1"
    if "0 < policy_days" "cache_key_of inst addrs2 signer = cache_key_of inst addrs signer"
      "loadOrSign policy_days inst addrs signer now w = (Inr sig1, w1)"
  proof -
    from loadOrSign_success [OF that(3) that(1)]
    have s: "signature_store w1 (cache_key_of inst addrs2 signer) = Some sig1" "unexpired sig1 now"
      "length (prompts w1) \<le> length (prompts w) + 1"
      using that(2) by simp_all
    from loadOrSign_hit [OF s(1) s(2)] s(3) show ?thesis by simp
  qed
  then show ?thesis using loadOrSign_hit [of w inst addrs signer sig now policy_days] by auto
qed


lemma normalize_example:
  "normalize_addresses [''0xBB'', ''0xaa'', ''0xbb''] = [''0xaa'', ''0xbb'']"
  "normalize_addresses [''0xbb'', ''0xAA''] = [''0xaa'', ''0xbb'']"
  by code_simp+

lemma first_sign:
  "loadOrSign 365 inst0 [''0xBB'', ''0xaa'', ''0xbb''] approving_wallet 1000 empty_world =
     (Inr sig0, signed_world)"
  by (simp add: loadOrSign_def sign_fresh_def cache_key_of_def normalize_example
      inst0_def approving_wallet_def empty_world_def sig0_def signed_world_def Let_def)

theorem loadOrSign_reuses_cached_witness:
  "loadOrSign 365 inst0 [''0xBB'', ''0xaa'', ''0xbb''] approving_wallet 1000 empty_world = (Inr sig0, signed_world)
   \<and> loadOrSign 365 inst0 [''0xbb'', ''0xAA''] approving_wallet 1000 signed_world = (Inr sig0, signed_world)
   \<and> length (prompts (snd (loadOrSign 365 inst0 [''0xbb'', ''0xAA''] approving_wallet 1000 signed_world))) \<le> 1
   \<and> signature_store signed_world (cache_key_of inst0 [''0xbb'', ''0xAA''] approving_wallet) = Some sig0
   \<and> unexpired sig0 86400
   \<and> loadOrSign 365 inst0 [''0xbb'', ''0xAA''] approving_wallet 86400 signed_world = (Inr sig0, signed_world)"
proof -
  have k: "cache_key_of inst0 [''0xbb'', ''0xAA''] approving_wallet =
      cache_key_of inst0 [''0xBB'', ''0xaa'', ''0xbb''] approving_wallet"
    by (simp add: cache_key_of_def normalize_example)
  have p: "length (prompts empty_world) = 0" by (simp add: empty_world_def)
  have st: "signature_store signed_world (cache_key_of inst0 [''0xbb'', ''0xAA''] approving_wallet) = Some sig0"
    by (simp add: cache_key_of_def normalize_example signed_world_def inst0_def approving_wallet_def)
  have un: "unexpired sig0 86400" by (simp add: unexpired_def sig0_def)
  have two: "loadOrSign 365 inst0 [''0xbb'', ''0xAA''] approving_wallet 1000 signed_world = (Inr sig0, signed_world)
      \<and> length (prompts (snd (loadOrSign 365 inst0 [''0xbb'', ''0xAA''] approving_wallet 1000 signed_world))) \<le> 1"
    using loadOrSign_reuses_cached [of empty_world inst0 "[''0xBB'', ''0xaa'', ''0xbb'']" approving_wallet
      sig0 1000 365 "[''0xbb'', ''0xAA'']" sig0 signed_world] k first_sign p
    by auto
  have hit: "loadOrSign 365 inst0 [''0xbb'', ''0xAA''] approving_wallet 86400 signed_world = (Inr sig0, signed_world)"
    using loadOrSign_reuses_cached [of signed_world inst0 "[''0xbb'', ''0xAA'']" approving_wallet
      sig0 86400 365 "[''0xbb'', ''0xAA'']" sig0 signed_world] st un
    by blast
  from first_sign two st un hit show ?thesis by blast
qed

subsection \<open>The encrypted-input builder\<close>





end
